theory Spec2Isabelle
  imports Main "HOL-Library.AList"
begin

section \<open>Python values used by blockchain.py\<close>

text \<open>
  A Python \<^verbatim>\<open>dict\<close> is an association list in iteration order. Assigning to a key
  that is present replaces its value in place, assigning to a new key appends the
  entry (\<^const>\<open>AList.update\<close>); \<^verbatim>\<open>d[k]\<close> is \<^const>\<open>map_of\<close>, with the
  \<^verbatim>\<open>KeyError\<close> written out where the source reads a key.
\<close>

type_synonym ('k, 'v) dict = "('k \<times> 'v) list"

definition dict_values :: "('k, 'v) dict \<Rightarrow> 'v list" where
  "dict_values d = map snd d"

definition dict_contains :: "'k \<Rightarrow> ('k, 'v) dict \<Rightarrow> bool" where
  "dict_contains k d = (map_of d k \<noteq> None)"

definition dict_setitem :: "'k \<Rightarrow> 'v \<Rightarrow> ('k, 'v) dict \<Rightarrow> ('k, 'v) dict" where
  "dict_setitem k v d = AList.update k v d"

text \<open>\<^verbatim>\<open>sep.join(xs)\<close>.\<close>

fun join :: "string \<Rightarrow> string list \<Rightarrow> string" where
  "join sep [] = []"
| "join sep [x] = x"
| "join sep (x # y # ys) = x @ sep @ join sep (y # ys)"

text \<open>\<^verbatim>\<open>'{0}'.format(n)\<close> for an integer: its decimal digits, with a sign.\<close>

definition digit_char :: "nat \<Rightarrow> char" where
  "digit_char d = char_of (48 + d)"

fun str_nat :: "nat \<Rightarrow> string" where
  "str_nat n = (if n < 10 then [digit_char n] else str_nat (n div 10) @ [digit_char (n mod 10)])"

declare str_nat.simps [simp del]

definition str_int :: "int \<Rightarrow> string" where
  "str_int i = (if i < 0 then CHR ''-'' # str_nat (nat (- i)) else str_nat (nat i))"

text \<open>\<^verbatim>\<open>'{0}'.format(x)\<close> for a string or \<^verbatim>\<open>None\<close>.\<close>

definition str_opt :: "string option \<Rightarrow> string" where
  "str_opt x = (case x of None \<Rightarrow> ''None'' | Some s \<Rightarrow> s)"

text \<open>
  What the program takes from outside the repository: \<^verbatim>\<open>hashlib.sha256(s).hexdigest()\<close>,
  the text Python prints for a storage dict, and \<^verbatim>\<open>exec(code, {'storage': storage})\<close>,
  which either raises (\<open>None\<close>) or leaves the storage dict with new contents.
\<close>

type_synonym storage_dict = "(string, string) dict"

record py_builtins =
  sha256_hexdigest :: "string \<Rightarrow> string"
  dict_repr :: "storage_dict \<Rightarrow> string"
  exec_code :: "string \<Rightarrow> storage_dict \<Rightarrow> storage_dict option"

section \<open>Account and WorldState\<close>

record account =
  address :: string
  nonce :: int
  balance :: int
  code :: "string option"
  storage :: storage_dict
  creation_tx_hash :: "string option"

datatype account_kind = EXTERNALLY_OWNED | CONTRACT

definition account_type :: "account \<Rightarrow> account_kind" where
  "account_type a = (if code a = None then EXTERNALLY_OWNED else CONTRACT)"

definition account_str :: "py_builtins \<Rightarrow> account \<Rightarrow> string" where
  "account_str py a =
     (if account_type a = CONTRACT then ''Contract '' else '''') @
     ''Account: '' @ address a @ [CHR 0x0A] @
     ''Nonce: '' @ str_int (nonce a) @ '', Balance: '' @ str_int (balance a) @ [CHR 0x0A] @
     ''Code: '' @ str_opt (code a) @ [CHR 0x0A] @
     ''Storage: '' @ dict_repr py (storage a) @ [CHR 0x0A]"

definition account_hash :: "py_builtins \<Rightarrow> account \<Rightarrow> string" where
  "account_hash py a = sha256_hexdigest py (account_str py a)"

record world_state =
  accounts :: "(string, account) dict"

definition world_state_str :: "py_builtins \<Rightarrow> world_state \<Rightarrow> string" where
  "world_state_str py s = join [CHR 0x0A] (map (account_str py) (dict_values (accounts s)))"

definition signature :: "py_builtins \<Rightarrow> world_state \<Rightarrow> string" where
  "signature py s = world_state_str py s"

definition account_created_by_tx_hash :: "world_state \<Rightarrow> string option \<Rightarrow> account option" where
  "account_created_by_tx_hash s h =
     find (\<lambda>a. creation_tx_hash a = h) (dict_values (accounts s))"

section \<open>Transaction\<close>

record transaction =
  sender_addr :: string
  receiver_addr :: "string option"
  tx_nonce :: int
  amount :: int
  data :: "string option"

definition transaction_str :: "transaction \<Rightarrow> string" where
  "transaction_str tx =
     sender_addr tx @ '','' @ str_opt (receiver_addr tx) @ '','' @
     str_int (amount tx) @ '','' @ str_opt (data tx)"

definition transaction_hash :: "py_builtins \<Rightarrow> transaction \<Rightarrow> string" where
  "transaction_hash py tx = sha256_hexdigest py (transaction_str tx)"

section \<open>apply_transaction\<close>

text \<open>
  Every \<^verbatim>\<open>raise\<close> of \<^verbatim>\<open>apply_transaction\<close> and of \<^verbatim>\<open>end_state_for_block\<close> is a value:
  \<open>UnknownSender\<close> is the \<^verbatim>\<open>KeyError\<close> of \<^verbatim>\<open>state.accounts[tx.sender_addr]\<close>,
  \<open>NonceMismatch\<close>, \<open>InsufficientBalance\<close> and \<open>MissingContractCode\<close> are the three
  \<^verbatim>\<open>raise Exception(...)\<close>, \<open>UnknownReceiver\<close> is the \<^verbatim>\<open>KeyError\<close> of
  \<^verbatim>\<open>state.accounts[tx.receiver_addr]\<close>, \<open>ContractExecutionError\<close> is whatever
  \<^verbatim>\<open>exec\<close> raises, and \<open>MissingAncestor\<close> is the \<^verbatim>\<open>KeyError\<close> of
  \<^verbatim>\<open>self.blocks[block.prev_block_hash]\<close>.
\<close>

datatype error =
    UnknownSender
  | NonceMismatch
  | InsufficientBalance
  | MissingContractCode
  | UnknownReceiver
  | ContractExecutionError
  | MissingAncestor

text \<open>
  The value of the state that \<^verbatim>\<open>apply_transaction\<close> returns. The source works on
  \<^verbatim>\<open>copy.deepcopy(state)\<close>; the statements on the copy are taken in their order, each
  reading what the one before has written (the receiver is read after the sender has
  been debited).
\<close>

definition apply_transaction ::
    "py_builtins \<Rightarrow> world_state \<Rightarrow> transaction \<Rightarrow> error + world_state" where
  "apply_transaction py state tx =
     (case map_of (accounts state) (sender_addr tx) of
        None \<Rightarrow> Inl UnknownSender
      | Some sender_account \<Rightarrow>
          if tx_nonce tx \<noteq> nonce sender_account then Inl NonceMismatch
          else if amount tx > balance sender_account then Inl InsufficientBalance
          else
            (case receiver_addr tx of
               None \<Rightarrow>
                 (case data tx of
                    None \<Rightarrow> Inl MissingContractCode
                  | Some d \<Rightarrow>
                      let new_contract =
                            \<lparr>address = sha256_hexdigest py d, nonce = 0, balance = 0,
                             code = Some d, storage = [],
                             creation_tx_hash = Some (transaction_hash py tx)\<rparr>
                      in Inr (state\<lparr>accounts :=
                                dict_setitem (address new_contract) new_contract (accounts state)\<rparr>))
             | Some r \<Rightarrow>
                 let accounts1 =
                       (if \<not> dict_contains r (accounts state)
                        then dict_setitem r
                               \<lparr>address = r, nonce = 0, balance = 0, code = None, storage = [],
                                creation_tx_hash = Some (transaction_hash py tx)\<rparr>
                               (accounts state)
                        else accounts state);
                     accounts2 =
                       dict_setitem (sender_addr tx)
                         (sender_account\<lparr>balance := balance sender_account - amount tx\<rparr>)
                         accounts1
                 in
                   (case map_of accounts2 r of
                      None \<Rightarrow> Inl UnknownReceiver
                    | Some receiver_account0 \<Rightarrow>
                        let receiver_account =
                              receiver_account0\<lparr>balance := balance receiver_account0 + amount tx\<rparr>;
                            accounts3 = dict_setitem r receiver_account accounts2
                        in
                          (case code receiver_account of
                             None \<Rightarrow> Inr (state\<lparr>accounts := accounts3\<rparr>)
                           | Some c \<Rightarrow>
                               (case exec_code py c (storage receiver_account) of
                                  None \<Rightarrow> Inl ContractExecutionError
                                | Some st \<Rightarrow>
                                    Inr (state\<lparr>accounts :=
                                           dict_setitem r (receiver_account\<lparr>storage := st\<rparr>)
                                             accounts3\<rparr>))))))"

text \<open>The balance held at an address (0 where there is no account), and the sum of all balances.\<close>

definition balance_of :: "world_state \<Rightarrow> string \<Rightarrow> int" where
  "balance_of s k = (case map_of (accounts s) k of None \<Rightarrow> 0 | Some a \<Rightarrow> balance a)"


section \<open>Block\<close>

record block =
  prev_block_hash :: string
  transactions :: "(string, transaction) dict"
  end_state_signature :: string

definition block_str :: "block \<Rightarrow> string" where
  "block_str b =
     prev_block_hash b @ [CHR 0x09] @ end_state_signature b @ [CHR 0x09] @
     join [CHR 0x09] (map transaction_str (dict_values (transactions b)))"

definition block_hash :: "py_builtins \<Rightarrow> block \<Rightarrow> string" where
  "block_hash py b = sha256_hexdigest py (block_str b)"

section \<open>BlockChain\<close>

definition ROOT_ACCOUNT_ADDR :: string where
  "ROOT_ACCOUNT_ADDR = ''0xdeadbeef''"

definition PRE_GENESIS_BLOCK_HASH :: string where
  "PRE_GENESIS_BLOCK_HASH = ''00000000''"

definition genesis_world_state :: world_state where
  "genesis_world_state =
     \<lparr>accounts = [(ROOT_ACCOUNT_ADDR,
        \<lparr>address = ROOT_ACCOUNT_ADDR, nonce = 0, balance = 1000, code = None, storage = [],
         creation_tx_hash = None\<rparr>)]\<rparr>"

definition genesis_block :: "py_builtins \<Rightarrow> block" where
  "genesis_block py =
     \<lparr>prev_block_hash = PRE_GENESIS_BLOCK_HASH, transactions = [],
      end_state_signature = signature py genesis_world_state\<rparr>"

text \<open>The engine's state: the two attributes \<^verbatim>\<open>__init__\<close> sets.\<close>

record block_chain =
  blocks :: "(string, block) dict"
  tx_queue :: "(string, transaction) dict"

definition init_block_chain :: "py_builtins \<Rightarrow> block_chain" where
  "init_block_chain py =
     \<lparr>blocks = [(block_hash py (genesis_block py), genesis_block py)], tx_queue = []\<rparr>"

definition enqueue_transaction :: "py_builtins \<Rightarrow> block_chain \<Rightarrow> transaction \<Rightarrow> block_chain" where
  "enqueue_transaction py bc tx =
     bc\<lparr>tx_queue := dict_setitem (transaction_hash py tx) tx (tx_queue bc)\<rparr>"

definition find_block_by :: "block_chain \<Rightarrow> (block \<Rightarrow> bool) \<Rightarrow> block option" where
  "find_block_by bc f = find f (dict_values (blocks bc))"

text \<open>
  The \<^verbatim>\<open>while True\<close> of \<^verbatim>\<open>last_block\<close> and the recursions of \<^verbatim>\<open>is_block_valid\<close> and
  \<^verbatim>\<open>end_state_for_block\<close> need not end (the parent links of the known blocks may form a
  cycle), so each takes fuel: the number of iterations, or the depth of recursion, it
  may use. \<open>None\<close> is the run that has not returned within it.
\<close>

fun last_block_loop :: "py_builtins \<Rightarrow> nat \<Rightarrow> block_chain \<Rightarrow> block \<Rightarrow> block option" where
  "last_block_loop py 0 bc current_block = None"
| "last_block_loop py (Suc n) bc current_block =
     (case find_block_by bc (\<lambda>b. prev_block_hash b = block_hash py current_block) of
        None \<Rightarrow> Some current_block
      | Some next_block \<Rightarrow> last_block_loop py n bc next_block)"

definition last_block :: "py_builtins \<Rightarrow> nat \<Rightarrow> block_chain \<Rightarrow> block option" where
  "last_block py n bc = last_block_loop py n bc (genesis_block py)"

text \<open>The \<^verbatim>\<open>for tx in block.transactions.values()\<close> of \<^verbatim>\<open>end_state_for_block\<close>.\<close>

fun apply_transactions ::
    "py_builtins \<Rightarrow> world_state \<Rightarrow> transaction list \<Rightarrow> error + world_state" where
  "apply_transactions py state [] = Inr state"
| "apply_transactions py state (tx # txs) =
     (case apply_transaction py state tx of
        Inl e \<Rightarrow> Inl e
      | Inr state' \<Rightarrow> apply_transactions py state' txs)"

fun end_state_for_block ::
    "py_builtins \<Rightarrow> nat \<Rightarrow> block_chain \<Rightarrow> block \<Rightarrow> (error + world_state) option" where
  "end_state_for_block py 0 bc b = None"
| "end_state_for_block py (Suc n) bc b =
     (if block_hash py b = block_hash py (genesis_block py) then Some (Inr genesis_world_state)
      else
        (case map_of (blocks bc) (prev_block_hash b) of
           None \<Rightarrow> Some (Inl MissingAncestor)
         | Some parent \<Rightarrow>
             (case end_state_for_block py n bc parent of
                None \<Rightarrow> None
              | Some (Inl e) \<Rightarrow> Some (Inl e)
              | Some (Inr state) \<Rightarrow>
                  Some (apply_transactions py state (dict_values (transactions b))))))"

definition chain_end_state_signature ::
    "py_builtins \<Rightarrow> nat \<Rightarrow> block_chain \<Rightarrow> block \<Rightarrow> (error + string) option" where
  "chain_end_state_signature py n bc b =
     (case end_state_for_block py n bc b of
        None \<Rightarrow> None
      | Some (Inl e) \<Rightarrow> Some (Inl e)
      | Some (Inr state) \<Rightarrow> Some (Inr (signature py state)))"

fun is_block_valid ::
    "py_builtins \<Rightarrow> nat \<Rightarrow> block_chain \<Rightarrow> block \<Rightarrow> (error + bool) option" where
  "is_block_valid py 0 bc b = None"
| "is_block_valid py (Suc n) bc b =
     (if block_hash py b = block_hash py (genesis_block py) then Some (Inr True)
      else if \<not> dict_contains (prev_block_hash b) (blocks bc) then Some (Inr False)
      else
        (case map_of (blocks bc) (prev_block_hash b) of
           None \<Rightarrow> Some (Inl MissingAncestor)
         | Some parent \<Rightarrow>
             (case is_block_valid py n bc parent of
                None \<Rightarrow> None
              | Some (Inl e) \<Rightarrow> Some (Inl e)
              | Some (Inr False) \<Rightarrow> Some (Inr False)
              | Some (Inr True) \<Rightarrow>
                  (case chain_end_state_signature py n bc b of
                     None \<Rightarrow> None
                   | Some (Inl e) \<Rightarrow> Some (Inl e)
                   | Some (Inr sig) \<Rightarrow> Some (Inr (sig = end_state_signature b))))))"

text \<open>
  The methods that assign to the engine's attributes return the engine's state next to
  their result; where they raise, the state is the one at the \<^verbatim>\<open>raise\<close>. What
  \<^verbatim>\<open>add_block\<close> prints is left out; it returns \<^verbatim>\<open>None\<close> on both of its paths.
\<close>

definition add_block ::
    "py_builtins \<Rightarrow> nat \<Rightarrow> block_chain \<Rightarrow> block \<Rightarrow> ((error + unit) \<times> block_chain) option" where
  "add_block py n bc b =
     (case is_block_valid py n bc b of
        None \<Rightarrow> None
      | Some (Inl e) \<Rightarrow> Some (Inl e, bc)
      | Some (Inr False) \<Rightarrow> Some (Inr (), bc)
      | Some (Inr True) \<Rightarrow>
          Some (Inr (), bc\<lparr>blocks := dict_setitem (block_hash py b) b (blocks bc)\<rparr>))"

definition mine_new_block ::
    "py_builtins \<Rightarrow> nat \<Rightarrow> block_chain \<Rightarrow> ((error + block) \<times> block_chain) option" where
  "mine_new_block py n bc =
     (case last_block py n bc of
        None \<Rightarrow> None
      | Some last1 \<Rightarrow>
          let block_without_end_state_sig =
                \<lparr>prev_block_hash = block_hash py last1, transactions = tx_queue bc,
                 end_state_signature = ''REPLACE_ME''\<rparr>
          in
            (case chain_end_state_signature py n bc block_without_end_state_sig of
               None \<Rightarrow> None
             | Some (Inl e) \<Rightarrow> Some (Inl e, bc)
             | Some (Inr sig) \<Rightarrow>
                 (case last_block py n bc of
                    None \<Rightarrow> None
                  | Some last2 \<Rightarrow>
                      let new_block =
                            \<lparr>prev_block_hash = block_hash py last2, transactions = tx_queue bc,
                             end_state_signature = sig\<rparr>
                      in
                        (case add_block py n bc new_block of
                           None \<Rightarrow> None
                         | Some (Inl e, bc1) \<Rightarrow> Some (Inl e, bc1)
                         | Some (Inr u, bc1) \<Rightarrow> Some (Inr new_block, bc1\<lparr>tx_queue := []\<rparr>)))))"

section \<open>An instance of the builtins, for running the definitions\<close>

text \<open>
  The theorems below hold for every digest, dict printer and interpreter. To evaluate
  the definitions at concrete inputs, \<open>demo_py\<close> puts an injective tagging in the place
  of the digest, prints a storage dict as Python does when no key or value needs an
  escape, and interprets the one contract of the demo driver
  (\<^verbatim>\<open>storage['foo'] = 'bar'\<close>) while raising on every other code.
\<close>

definition demo_repr :: "string \<Rightarrow> string" where
  "demo_repr s = [CHR 0x27] @ s @ [CHR 0x27]"

definition demo_dict_repr :: "storage_dict \<Rightarrow> string" where
  "demo_dict_repr d =
     ''{'' @ join '', '' (map (\<lambda>(k, v). demo_repr k @ '': '' @ demo_repr v) d) @ ''}''"

definition demo_contract :: string where
  "demo_contract = ''storage['' @ demo_repr ''foo'' @ ''] = '' @ demo_repr ''bar''"

definition demo_exec :: "string \<Rightarrow> storage_dict \<Rightarrow> storage_dict option" where
  "demo_exec c st = (if c = demo_contract then Some (dict_setitem ''foo'' ''bar'' st) else None)"

definition demo_py :: py_builtins where
  "demo_py = \<lparr>sha256_hexdigest = (\<lambda>s. ''sha256:'' @ s), dict_repr = demo_dict_repr,
     exec_code = demo_exec\<rparr>"

section \<open>Notions the properties are stated with, and concrete inputs\<close>


text \<open>Two transfers of 1 from the root account, to the new addresses \<open>a\<close> and \<open>b\<close>.\<close>

definition tx_to_a :: transaction where
  "tx_to_a = \<lparr>sender_addr = ROOT_ACCOUNT_ADDR, receiver_addr = Some ''a'', tx_nonce = 0,
     amount = 1, data = None\<rparr>"

definition tx_to_b :: transaction where
  "tx_to_b = \<lparr>sender_addr = ROOT_ACCOUNT_ADDR, receiver_addr = Some ''b'', tx_nonce = 0,
     amount = 1, data = None\<rparr>"

definition acct_root :: "int \<Rightarrow> account" where
  "acct_root n = \<lparr>address = ROOT_ACCOUNT_ADDR, nonce = 0, balance = n, code = None,
     storage = [], creation_tx_hash = None\<rparr>"

definition acct_a :: account where
  "acct_a = \<lparr>address = ''a'', nonce = 0, balance = 1, code = None, storage = [],
     creation_tx_hash = Some ''sha256:0xdeadbeef,a,1,None''\<rparr>"


definition state_a :: world_state where
  "state_a = \<lparr>accounts = [(ROOT_ACCOUNT_ADDR, acct_root 999), (''a'', acct_a)]\<rparr>"




text \<open>The root account sends 400 to itself.\<close>

definition tx_self :: transaction where
  "tx_self = \<lparr>sender_addr = ROOT_ACCOUNT_ADDR, receiver_addr = Some ROOT_ACCOUNT_ADDR,
     tx_nonce = 0, amount = 400, data = None\<rparr>"

text \<open>
  Reading a decimal numeral back (the inverse of \<open>str_nat\<close>), and the transactions
  whose printed form can be split back into its fields: no comma in the addresses, and
  no address or data that is the text \<^verbatim>\<open>None\<close>.
\<close>

definition digit_value :: "char \<Rightarrow> nat" where
  "digit_value c = of_char c - 48"

definition nat_of_digits :: "string \<Rightarrow> nat" where
  "nat_of_digits cs = foldl (\<lambda>acc c. 10 * acc + digit_value c) 0 cs"

definition unambiguous :: "transaction \<Rightarrow> bool" where
  "unambiguous tx =
     (CHR '','' \<notin> set (sender_addr tx) \<and>
      (case receiver_addr tx of None \<Rightarrow> True | Some r \<Rightarrow> CHR '','' \<notin> set r \<and> r \<noteq> ''None'') \<and>
      data tx \<noteq> Some ''None'')"




definition state_contract_x :: world_state where
  "state_contract_x =
     \<lparr>accounts = [(''sha256:x'', \<lparr>address = ''sha256:x'', nonce = 5, balance = 10,
        code = Some ''x'', storage = [(''foo'', ''bar'')], creation_tx_hash = None\<rparr>)]\<rparr>"

definition tx_recreate_x :: transaction where
  "tx_recreate_x = \<lparr>sender_addr = ''sha256:x'', receiver_addr = None, tx_nonce = 5,
     amount = 0, data = Some ''x''\<rparr>"

definition state_contract_x_reset :: world_state where
  "state_contract_x_reset =
     \<lparr>accounts = [(''sha256:x'', \<lparr>address = ''sha256:x'', nonce = 0, balance = 0,
        code = Some ''x'', storage = [], creation_tx_hash = Some ''sha256:sha256:x,None,0,x''\<rparr>)]\<rparr>"



text \<open>
  Blocks for the engine after \<^verbatim>\<open>__init__\<close>: a block whose parent is unknown, the empty
  child of genesis with the right signature, the same with a wrong signature, and a
  child of genesis with a transaction that asks for more than the root account holds.
  Then two engines with one pending transaction each, and what mining gives for the
  second.
\<close>

definition orphan_block :: block where
  "orphan_block = \<lparr>prev_block_hash = ''nowhere'', transactions = [], end_state_signature = ''x''\<rparr>"

definition empty_child :: block where
  "empty_child = \<lparr>prev_block_hash = block_hash demo_py (genesis_block demo_py), transactions = [],
     end_state_signature = signature demo_py genesis_world_state\<rparr>"

definition wrong_child :: block where
  "wrong_child = \<lparr>prev_block_hash = block_hash demo_py (genesis_block demo_py), transactions = [],
     end_state_signature = ''bogus''\<rparr>"

definition tx_too_much :: transaction where
  "tx_too_much = \<lparr>sender_addr = ROOT_ACCOUNT_ADDR, receiver_addr = Some ''a'', tx_nonce = 0,
     amount = 5000, data = None\<rparr>"

definition greedy_child :: block where
  "greedy_child = \<lparr>prev_block_hash = block_hash demo_py (genesis_block demo_py),
     transactions = [(transaction_hash demo_py tx_too_much, tx_too_much)],
     end_state_signature = ''x''\<rparr>"





section \<open>The object store\<close>

text \<open>
  To state that \<^verbatim>\<open>apply_transaction\<close> leaves its argument alone, the objects are put in
  a store. A reference is an index into the list of the objects of its kind; creating
  an object appends it. A \<^verbatim>\<open>WorldState\<close> object is its \<^verbatim>\<open>accounts\<close> dict, from addresses
  to references to \<^verbatim>\<open>Account\<close> objects; an \<^verbatim>\<open>Account\<close> object holds a reference to its
  \<^verbatim>\<open>storage\<close> dict (the other attributes are immutable values).
\<close>

type_synonym ref = nat

record account_obj =
  o_address :: string
  o_nonce :: int
  o_balance :: int
  o_code :: "string option"
  o_storage :: ref
  o_creation_tx_hash :: "string option"

record heap =
  account_objs :: "account_obj list"
  storage_objs :: "storage_dict list"
  state_objs :: "(string, ref) dict list"

text \<open>The value of the objects reachable from a reference.\<close>

definition account_at :: "heap \<Rightarrow> ref \<Rightarrow> account" where
  "account_at h r =
     (let a = account_objs h ! r
      in \<lparr>address = o_address a, nonce = o_nonce a, balance = o_balance a, code = o_code a,
          storage = storage_objs h ! o_storage a, creation_tx_hash = o_creation_tx_hash a\<rparr>)"

definition state_at :: "heap \<Rightarrow> ref \<Rightarrow> world_state" where
  "state_at h s = \<lparr>accounts = map (\<lambda>e. (fst e, account_at h (snd e))) (state_objs h ! s)\<rparr>"

text \<open>No reference reachable from the state \<open>s\<close> dangles.\<close>

definition wf_state :: "heap \<Rightarrow> ref \<Rightarrow> bool" where
  "wf_state h s =
     (s < length (state_objs h) \<and>
      list_all (\<lambda>e. snd e < length (account_objs h) \<and>
                    o_storage (account_objs h ! snd e) < length (storage_objs h))
        (state_objs h ! s))"

definition alloc_storage :: "heap \<Rightarrow> storage_dict \<Rightarrow> heap \<times> ref" where
  "alloc_storage h d = (h\<lparr>storage_objs := storage_objs h @ [d]\<rparr>, length (storage_objs h))"

definition alloc_account :: "heap \<Rightarrow> account_obj \<Rightarrow> heap \<times> ref" where
  "alloc_account h a = (h\<lparr>account_objs := account_objs h @ [a]\<rparr>, length (account_objs h))"

definition alloc_state :: "heap \<Rightarrow> (string, ref) dict \<Rightarrow> heap \<times> ref" where
  "alloc_state h es = (h\<lparr>state_objs := state_objs h @ [es]\<rparr>, length (state_objs h))"

text \<open>
  \<^verbatim>\<open>copy.deepcopy(state)\<close>: every object reachable from the state is copied once; the
  memo maps the objects copied so far to their copies, so that sharing in the
  original is sharing in the copy.
\<close>

type_synonym memo = "(ref \<times> ref) list \<times> (ref \<times> ref) list"

definition copy_storage :: "heap \<Rightarrow> memo \<Rightarrow> ref \<Rightarrow> heap \<times> memo \<times> ref" where
  "copy_storage h m r =
     (case map_of (snd m) r of
        Some r' \<Rightarrow> (h, m, r')
      | None \<Rightarrow>
          (let (h1, r') = alloc_storage h (storage_objs h ! r)
           in (h1, (fst m, (r, r') # snd m), r')))"

definition copy_account :: "heap \<Rightarrow> memo \<Rightarrow> ref \<Rightarrow> heap \<times> memo \<times> ref" where
  "copy_account h m r =
     (case map_of (fst m) r of
        Some r' \<Rightarrow> (h, m, r')
      | None \<Rightarrow>
          (let a = account_objs h ! r;
               (h1, m1, sr) = copy_storage h m (o_storage a);
               (h2, r') = alloc_account h1 (a\<lparr>o_storage := sr\<rparr>)
           in (h2, ((r, r') # fst m1, snd m1), r')))"

fun copy_entries ::
    "heap \<Rightarrow> memo \<Rightarrow> (string, ref) dict \<Rightarrow> heap \<times> memo \<times> (string, ref) dict" where
  "copy_entries h m [] = (h, m, [])"
| "copy_entries h m (e # es) =
     (let (h1, m1, r') = copy_account h m (snd e);
          (h2, m2, es') = copy_entries h1 m1 es
      in (h2, m2, (fst e, r') # es'))"

definition deepcopy :: "heap \<Rightarrow> ref \<Rightarrow> heap \<times> ref" where
  "deepcopy h s =
     (let (h1, m, es) = copy_entries h ([], []) (state_objs h ! s)
      in alloc_state h1 es)"

text \<open>\<^verbatim>\<open>Account(address, 0, 0, code, {}, creation_tx_hash)\<close>: a new dict and a new account.\<close>

definition new_account ::
    "heap \<Rightarrow> string \<Rightarrow> string option \<Rightarrow> string option \<Rightarrow> heap \<times> ref" where
  "new_account h a c t =
     (let (h1, sr) = alloc_storage h []
      in alloc_account h1
           \<lparr>o_address = a, o_nonce = 0, o_balance = 0, o_code = c, o_storage = sr,
            o_creation_tx_hash = t\<rparr>)"

text \<open>The assignments of the source: to a key of a state's dict, to a balance, to a storage.\<close>

definition set_entry :: "heap \<Rightarrow> ref \<Rightarrow> string \<Rightarrow> ref \<Rightarrow> heap" where
  "set_entry h s k r = h\<lparr>state_objs := (state_objs h)[s := dict_setitem k r (state_objs h ! s)]\<rparr>"

definition add_balance :: "heap \<Rightarrow> ref \<Rightarrow> int \<Rightarrow> heap" where
  "add_balance h r n =
     h\<lparr>account_objs := (account_objs h)
          [r := (account_objs h ! r)\<lparr>o_balance := o_balance (account_objs h ! r) + n\<rparr>]\<rparr>"

definition set_storage :: "heap \<Rightarrow> ref \<Rightarrow> storage_dict \<Rightarrow> heap" where
  "set_storage h r d = h\<lparr>storage_objs := (storage_objs h)[r := d]\<rparr>"

text \<open>
  \<^verbatim>\<open>apply_transaction\<close> on the store, statement by statement. It returns the reference
  to the new state, or the exception, and the store as it is then. (An \<^verbatim>\<open>exec\<close> that
  raises is taken to leave the storage it was given as it was.)
\<close>

definition apply_transaction_h ::
    "py_builtins \<Rightarrow> heap \<Rightarrow> ref \<Rightarrow> transaction \<Rightarrow> (error + ref) \<times> heap" where
  "apply_transaction_h py h0 state0 tx =
     (let (h, state) = deepcopy h0 state0
      in case map_of (state_objs h ! state) (sender_addr tx) of
           None \<Rightarrow> (Inl UnknownSender, h)
         | Some sender_account \<Rightarrow>
             if tx_nonce tx \<noteq> o_nonce (account_objs h ! sender_account)
             then (Inl NonceMismatch, h)
             else if amount tx > o_balance (account_objs h ! sender_account)
             then (Inl InsufficientBalance, h)
             else
               (case receiver_addr tx of
                  None \<Rightarrow>
                    (case data tx of
                       None \<Rightarrow> (Inl MissingContractCode, h)
                     | Some d \<Rightarrow>
                         (let (h1, new_contract) =
                                new_account h (sha256_hexdigest py d) (Some d)
                                  (Some (transaction_hash py tx))
                          in (Inr state, set_entry h1 state (sha256_hexdigest py d) new_contract)))
                | Some r \<Rightarrow>
                    (let h1 =
                           (if \<not> dict_contains r (state_objs h ! state)
                            then (let (h', a) = new_account h r None (Some (transaction_hash py tx))
                                  in set_entry h' state r a)
                            else h);
                         h2 = add_balance h1 sender_account (- amount tx)
                     in case map_of (state_objs h2 ! state) r of
                          None \<Rightarrow> (Inl UnknownReceiver, h2)
                        | Some receiver_account \<Rightarrow>
                            (let h3 = add_balance h2 receiver_account (amount tx);
                                 ra = account_objs h3 ! receiver_account
                             in case o_code ra of
                                  None \<Rightarrow> (Inr state, h3)
                                | Some c \<Rightarrow>
                                    (case exec_code py c (storage_objs h3 ! o_storage ra) of
                                       None \<Rightarrow> (Inl ContractExecutionError, h3)
                                     | Some st \<Rightarrow>
                                         (Inr state, set_storage h3 (o_storage ra) st))))))"

text \<open>
  \<open>extends h0 h\<close>: the store \<open>h\<close> has every object of \<open>h0\<close>, unchanged, and the
  objects created since (the fresh ones) refer to objects created since only.
\<close>

definition kept :: "'a list \<Rightarrow> 'a list \<Rightarrow> bool" where
  "kept xs ys = (take (length xs) ys = xs)"

definition fresh_account :: "heap \<Rightarrow> heap \<Rightarrow> ref \<Rightarrow> bool" where
  "fresh_account h0 h r = (length (account_objs h0) \<le> r \<and> r < length (account_objs h))"

definition fresh_storage :: "heap \<Rightarrow> heap \<Rightarrow> ref \<Rightarrow> bool" where
  "fresh_storage h0 h r = (length (storage_objs h0) \<le> r \<and> r < length (storage_objs h))"

definition fresh_state :: "heap \<Rightarrow> heap \<Rightarrow> ref \<Rightarrow> bool" where
  "fresh_state h0 h s = (length (state_objs h0) \<le> s \<and> s < length (state_objs h))"

definition extends :: "heap \<Rightarrow> heap \<Rightarrow> bool" where
  "extends h0 h =
     (kept (account_objs h0) (account_objs h) \<and>
      kept (storage_objs h0) (storage_objs h) \<and>
      kept (state_objs h0) (state_objs h) \<and>
      (\<forall>r. fresh_account h0 h r \<longrightarrow> fresh_storage h0 h (o_storage (account_objs h ! r))) \<and>
      (\<forall>s k r. fresh_state h0 h s \<and> (k, r) \<in> set (state_objs h ! s) \<longrightarrow> fresh_account h0 h r))"

definition fresh_memo :: "heap \<Rightarrow> heap \<Rightarrow> memo \<Rightarrow> bool" where
  "fresh_memo h0 h m =
     ((\<forall>r r'. (r, r') \<in> set (fst m) \<longrightarrow> fresh_account h0 h r') \<and>
      (\<forall>r r'. (r, r') \<in> set (snd m) \<longrightarrow> fresh_storage h0 h r'))"

definition grows :: "heap \<Rightarrow> heap \<Rightarrow> bool" where
  "grows h h1 =
     (length (account_objs h) \<le> length (account_objs h1) \<and>
      length (storage_objs h) \<le> length (storage_objs h1) \<and>
      length (state_objs h) \<le> length (state_objs h1))"

definition heap_genesis :: heap where
  "heap_genesis =
     \<lparr>account_objs = [\<lparr>o_address = ROOT_ACCOUNT_ADDR, o_nonce = 0, o_balance = 1000, o_code = None,
                        o_storage = 0, o_creation_tx_hash = None\<rparr>],
      storage_objs = [[]],
      state_objs = [[(ROOT_ACCOUNT_ADDR, 0)]]\<rparr>"

section \<open>Dictionaries\<close>

lemma map_of_dict_setitem: "map_of (dict_setitem k v d) = (map_of d)(k \<mapsto> v)"
  by (simp add: dict_setitem_def update_conv')




section \<open>The signature of a world state\<close>





section \<open>Transfers\<close>



text \<open>
  C9: an account without code that sends to itself an amount within its balance, with
  the matching nonce, is applied, and its balance in the returned state is its balance
  in the input state.
\<close>

theorem self_transfer_keeps_balance:
  assumes "map_of (accounts state) x = Some acc" and "code acc = None"
    and "sender_addr tx = x" and "receiver_addr tx = Some x"
    and "tx_nonce tx = nonce acc" and "amount tx \<le> balance acc"
  shows "\<exists>state'. apply_transaction py state tx = Inr state' \<and>
           balance_of state' x = balance_of state x"
  using assms
  by (simp add: apply_transaction_def Let_def dict_contains_def map_of_dict_setitem balance_of_def)

theorem self_transfer_keeps_balance_witness:
  "\<exists>state'. apply_transaction demo_py genesis_world_state tx_self = Inr state' \<and>
     balance_of state' ROOT_ACCOUNT_ADDR = 1000"
proof -
  have a: "map_of (accounts genesis_world_state) ROOT_ACCOUNT_ADDR = Some (acct_root 1000)"
    by (simp add: genesis_world_state_def acct_root_def)
  have b: "code (acct_root 1000) = None" "tx_nonce tx_self = nonce (acct_root 1000)"
    "amount tx_self \<le> balance (acct_root 1000)"
    "sender_addr tx_self = ROOT_ACCOUNT_ADDR" "receiver_addr tx_self = Some ROOT_ACCOUNT_ADDR"
    by (simp_all add: acct_root_def tx_self_def)
  have c: "balance_of genesis_world_state ROOT_ACCOUNT_ADDR = 1000"
    by (simp add: balance_of_def genesis_world_state_def)
  from self_transfer_keeps_balance[OF a b(1) b(4) b(5) b(2) b(3), of demo_py] c
  show ?thesis by simp
qed

section \<open>The hash of a transaction\<close>

lemma digit_value_digit_char: "d < 10 \<Longrightarrow> digit_value (digit_char d) = d"
  by (simp add: digit_value_def digit_char_def)

lemma nat_of_digits_snoc: "nat_of_digits (cs @ [c]) = 10 * nat_of_digits cs + digit_value c"
  by (simp add: nat_of_digits_def)

lemma str_nat_small: "n < 10 \<Longrightarrow> str_nat n = [digit_char n]"
  by (subst str_nat.simps) simp

lemma str_nat_large: "\<not> n < 10 \<Longrightarrow> str_nat n = str_nat (n div 10) @ [digit_char (n mod 10)]"
  by (subst str_nat.simps) simp

lemma nat_of_digits_str_nat: "nat_of_digits (str_nat n) = n"
proof (induction n rule: str_nat.induct)
  case (1 n)
  show ?case
  proof (cases "n < 10")
    case True
    then show ?thesis
      by (simp add: str_nat_small nat_of_digits_def digit_value_digit_char)
  next
    case False
    with 1 have "nat_of_digits (str_nat (n div 10)) = n div 10" by simp
    with False show ?thesis
      by (simp add: str_nat_large nat_of_digits_snoc digit_value_digit_char)
  qed
qed

lemma str_nat_inj:
  assumes "str_nat n = str_nat m"
  shows "n = m"
proof -
  have "nat_of_digits (str_nat n) = nat_of_digits (str_nat m)"
    by (rule arg_cong[OF assms])
  then show ?thesis
    by (simp only: nat_of_digits_str_nat)
qed


lemma of_char_digit_char: "d < 10 \<Longrightarrow> of_char (digit_char d) = 48 + d"
  by (simp add: digit_char_def)

lemma digit_char_neq: "d < 10 \<Longrightarrow> digit_char d \<noteq> CHR '','' \<and> digit_char d \<noteq> CHR ''-''"
proof -
  assume d: "d < 10"
  have "(of_char (digit_char d) :: nat) \<noteq> of_char CHR '',''"
    "(of_char (digit_char d) :: nat) \<noteq> of_char CHR ''-''"
    using d by (simp_all add: of_char_digit_char)
  then show ?thesis by auto
qed

lemma str_nat_chars: "c \<in> set (str_nat n) \<Longrightarrow> c \<noteq> CHR '','' \<and> c \<noteq> CHR ''-''"
proof (induction n rule: str_nat.induct)
  case (1 n)
  show ?case
  proof (cases "n < 10")
    case True
    with "1.prems" have "c = digit_char n" by (simp add: str_nat_small)
    with True digit_char_neq[of n] show ?thesis by simp
  next
    case False
    with "1.prems" have "c \<in> set (str_nat (n div 10)) \<or> c = digit_char (n mod 10)"
      by (auto simp: str_nat_large)
    then show ?thesis
    proof
      assume "c \<in> set (str_nat (n div 10))"
      with "1.IH"[OF False] show ?thesis .
    next
      assume "c = digit_char (n mod 10)"
      moreover have "n mod 10 < 10" by simp
      ultimately show ?thesis using digit_char_neq[of "n mod 10"] by simp
    qed
  qed
qed

lemma str_nat_nonempty: "str_nat n \<noteq> []"
  by (cases "n < 10") (simp_all add: str_nat_small str_nat_large)

lemma str_int_inj: "str_int i = str_int j \<Longrightarrow> i = j"
proof -
  assume eq: "str_int i = str_int j"
  have hd_nat: "hd (str_nat n) \<noteq> CHR ''-''" for n
    using str_nat_chars[of "hd (str_nat n)" n] str_nat_nonempty[of n] by (simp)
  show ?thesis
  proof (cases "i < 0")
    case True
    show ?thesis
    proof (cases "j < 0")
      case True
      with \<open>i < 0\<close> eq have "str_nat (nat (- i)) = str_nat (nat (- j))" by (simp add: str_int_def)
      then have "nat (- i) = nat (- j)" by (rule str_nat_inj)
      with True \<open>i < 0\<close> show ?thesis by simp
    next
      case False
      with \<open>i < 0\<close> eq have "CHR ''-'' # str_nat (nat (- i)) = str_nat (nat j)" by (simp add: str_int_def)
      then have "hd (str_nat (nat j)) = CHR ''-''" using list.sel(1)[of "CHR ''-''" "str_nat (nat (- i))"] by simp
      with hd_nat[of "nat j"] show ?thesis by simp
    qed
  next
    case False
    show ?thesis
    proof (cases "j < 0")
      case True
      with False eq have "str_nat (nat i) = CHR ''-'' # str_nat (nat (- j))" by (simp add: str_int_def)
      then have "hd (str_nat (nat i)) = CHR ''-''" by simp
      with hd_nat[of "nat i"] show ?thesis by simp
    next
      case j: False
      with False eq have "str_nat (nat i) = str_nat (nat j)" by (simp add: str_int_def)
      then have "nat i = nat j" by (rule str_nat_inj)
      with False j show ?thesis by simp
    qed
  qed
qed

lemma str_int_no_comma: "CHR '','' \<notin> set (str_int i)"
  using str_nat_chars by (auto simp: str_int_def)

lemma split_at_sep:
  assumes "c \<notin> set a" and "c \<notin> set a'" and "a @ c # r = a' @ c # r'"
  shows "a = a' \<and> r = r'"
  using assms
proof (induction a arbitrary: a')
  case Nil
  then show ?case by (cases a') auto
next
  case (Cons x a)
  then show ?case by (cases a') auto
qed

lemma str_opt_no_comma:
  "(case r of None \<Rightarrow> True | Some r \<Rightarrow> CHR '','' \<notin> set r \<and> r \<noteq> ''None'') \<Longrightarrow>
   CHR '','' \<notin> set (str_opt r)"
  by (cases r) (simp_all add: str_opt_def)

lemma str_opt_inj:
  assumes "a \<noteq> Some ''None''" and "b \<noteq> Some ''None''" and "str_opt a = str_opt b"
  shows "a = b"
  using assms by (cases a; cases b) (simp_all add: str_opt_def)

lemma transaction_str_inj:
  assumes u1: "unambiguous tx1" and u2: "unambiguous tx2"
    and eq: "transaction_str tx1 = transaction_str tx2"
  shows "sender_addr tx1 = sender_addr tx2 \<and> receiver_addr tx1 = receiver_addr tx2 \<and>
         amount tx1 = amount tx2 \<and> data tx1 = data tx2"
proof -
  let ?c = "CHR '',''"
  from eq have e0: "sender_addr tx1 @ ?c # (str_opt (receiver_addr tx1) @ ?c # (str_int (amount tx1) @ ?c # str_opt (data tx1)))
      = sender_addr tx2 @ ?c # (str_opt (receiver_addr tx2) @ ?c # (str_int (amount tx2) @ ?c # str_opt (data tx2)))"
    by (simp add: transaction_str_def)
  from u1 u2 have s: "?c \<notin> set (sender_addr tx1)" "?c \<notin> set (sender_addr tx2)"
    by (simp_all add: unambiguous_def)
  from split_at_sep[OF s e0]
  have a: "sender_addr tx1 = sender_addr tx2"
    and e1: "str_opt (receiver_addr tx1) @ ?c # (str_int (amount tx1) @ ?c # str_opt (data tx1))
      = str_opt (receiver_addr tx2) @ ?c # (str_int (amount tx2) @ ?c # str_opt (data tx2))"
    by blast+
  from u1 u2 have r: "?c \<notin> set (str_opt (receiver_addr tx1))" "?c \<notin> set (str_opt (receiver_addr tx2))"
    by (simp_all add: unambiguous_def str_opt_no_comma)
  from split_at_sep[OF r e1]
  have b0: "str_opt (receiver_addr tx1) = str_opt (receiver_addr tx2)"
    and e2: "str_int (amount tx1) @ ?c # str_opt (data tx1) = str_int (amount tx2) @ ?c # str_opt (data tx2)"
    by blast+
  from split_at_sep[OF str_int_no_comma str_int_no_comma e2]
  have c0: "str_int (amount tx1) = str_int (amount tx2)"
    and d0: "str_opt (data tx1) = str_opt (data tx2)"
    by blast+
  from u1 u2 have "receiver_addr tx1 \<noteq> Some ''None''" "receiver_addr tx2 \<noteq> Some ''None''"
    by (auto simp: unambiguous_def split: option.splits)
  with b0 have b: "receiver_addr tx1 = receiver_addr tx2" by (rule str_opt_inj[rotated 2])
  from u1 u2 have "data tx1 \<noteq> Some ''None''" "data tx2 \<noteq> Some ''None''"
    by (simp_all add: unambiguous_def)
  with d0 have d: "data tx1 = data tx2" by (rule str_opt_inj[rotated 2])
  from c0 have c: "amount tx1 = amount tx2" by (rule str_int_inj)
  from a b c d show ?thesis by blast
qed

text \<open>
  C3, amended: \<^verbatim>\<open>Transaction.hash()\<close> is a function of sender_addr, receiver_addr,
  amount and data alone: transactions that agree on these four fields have the same
  hash, whatever their nonces. When the digest is injective, two transactions whose
  printed form is unambiguous and whose hashes are equal agree on the four fields.
\<close>

theorem transaction_hash_identity:
  "(sender_addr tx1 = sender_addr tx2 \<and> receiver_addr tx1 = receiver_addr tx2 \<and>
    amount tx1 = amount tx2 \<and> data tx1 = data tx2 \<longrightarrow>
      transaction_hash py tx1 = transaction_hash py tx2) \<and>
   (inj (sha256_hexdigest py) \<and> unambiguous tx1 \<and> unambiguous tx2 \<and>
    transaction_hash py tx1 = transaction_hash py tx2 \<longrightarrow>
      sender_addr tx1 = sender_addr tx2 \<and> receiver_addr tx1 = receiver_addr tx2 \<and>
      amount tx1 = amount tx2 \<and> data tx1 = data tx2)"
proof -
  have same: "transaction_hash py tx1 = transaction_hash py tx2"
    if "sender_addr tx1 = sender_addr tx2 \<and> receiver_addr tx1 = receiver_addr tx2 \<and>
        amount tx1 = amount tx2 \<and> data tx1 = data tx2"
    using that by (simp add: transaction_hash_def transaction_str_def)
  have differ: "sender_addr tx1 = sender_addr tx2 \<and> receiver_addr tx1 = receiver_addr tx2 \<and>
      amount tx1 = amount tx2 \<and> data tx1 = data tx2"
    if h: "inj (sha256_hexdigest py) \<and> unambiguous tx1 \<and> unambiguous tx2 \<and>
      transaction_hash py tx1 = transaction_hash py tx2"
  proof -
    from h have "transaction_str tx1 = transaction_str tx2"
      by (auto simp: transaction_hash_def dest: injD)
    with h show ?thesis
      using transaction_str_inj[of tx1 tx2] by blast
  qed
  from same differ show ?thesis by blast
qed

lemma demo_digest_inj: "inj (sha256_hexdigest demo_py)"
  by (simp add: demo_py_def inj_def)

text \<open>
  C3, as the claim states it, fails: \<^verbatim>\<open>Transaction.__str__\<close> does not print the nonce,
  so two transactions that differ in the nonce only have the same hash, under an
  injective digest too.
\<close>

theorem transaction_hash_nonce_counterexample:
  "inj (sha256_hexdigest demo_py) \<and>
   tx_nonce (tx_to_a\<lparr>tx_nonce := 1\<rparr>) \<noteq> tx_nonce tx_to_a \<and>
   transaction_hash demo_py (tx_to_a\<lparr>tx_nonce := 1\<rparr>) = transaction_hash demo_py tx_to_a"
  by (simp add: demo_digest_inj tx_to_a_def transaction_hash_def transaction_str_def)

theorem transaction_hash_identity_witness:
  "transaction_hash demo_py (tx_to_a\<lparr>tx_nonce := 1\<rparr>) = transaction_hash demo_py tx_to_a \<and>
   transaction_hash demo_py tx_to_a \<noteq> transaction_hash demo_py tx_to_b"
proof -
  have u: "unambiguous tx_to_a" "unambiguous tx_to_b"
    by (simp_all add: unambiguous_def tx_to_a_def tx_to_b_def ROOT_ACCOUNT_ADDR_def)
  have ne: "receiver_addr tx_to_a \<noteq> receiver_addr tx_to_b"
    by (simp add: tx_to_a_def tx_to_b_def)
  have 1: "transaction_hash demo_py (tx_to_a\<lparr>tx_nonce := 1\<rparr>) = transaction_hash demo_py tx_to_a"
    using transaction_hash_identity[of "tx_to_a\<lparr>tx_nonce := 1\<rparr>" tx_to_a demo_py] by simp
  have 2: "transaction_hash demo_py tx_to_a \<noteq> transaction_hash demo_py tx_to_b"
    using transaction_hash_identity[of tx_to_a tx_to_b demo_py] u ne demo_digest_inj by blast
  from 1 2 show ?thesis by blast
qed

section \<open>Contract creation and the nonce of the sender\<close>





text \<open>
  C8, as the claim states it, fails: a contract creation whose new address (the hash of
  its data) is the address of the sender replaces the account of the sender by the new
  contract, whose nonce is 0.
\<close>

theorem sender_nonce_counterexample:
  "map_option nonce (map_of (accounts state_contract_x) (sender_addr tx_recreate_x)) = Some 5 \<and>
   apply_transaction demo_py state_contract_x tx_recreate_x = Inr state_contract_x_reset \<and>
   map_option nonce (map_of (accounts state_contract_x_reset) (sender_addr tx_recreate_x)) = Some 0"
proof -
  have 1: "apply_transaction demo_py state_contract_x tx_recreate_x = Inr state_contract_x_reset"
    by code_simp
  have 2: "map_option nonce (map_of (accounts state_contract_x) (sender_addr tx_recreate_x)) = Some 5"
    "map_option nonce (map_of (accounts state_contract_x_reset) (sender_addr tx_recreate_x)) = Some 0"
    by (simp_all add: state_contract_x_reset_def state_contract_x_def tx_recreate_x_def)
  from 1 2 show ?thesis by blast
qed

text \<open>
  C8, amended: every transaction that \<^verbatim>\<open>apply_transaction\<close> applies, other than a contract
  creation whose new address is the address of the sender, leaves the sender with the
  nonce it had.
\<close>

theorem sender_nonce_unchanged:
  assumes "apply_transaction py state tx = Inr state'"
    and "\<not> (receiver_addr tx = None \<and>
             map_option (sha256_hexdigest py) (data tx) = Some (sender_addr tx))"
  shows "\<exists>sa sa'. map_of (accounts state) (sender_addr tx) = Some sa \<and>
            map_of (accounts state') (sender_addr tx) = Some sa' \<and> nonce sa' = nonce sa"
  using assms
  by (auto simp: apply_transaction_def Let_def dict_contains_def map_of_dict_setitem
      split: option.splits if_splits)

theorem sender_nonce_unchanged_witness:
  "\<exists>sa sa'. map_of (accounts genesis_world_state) (sender_addr tx_to_a) = Some sa \<and>
      map_of (accounts state_a) (sender_addr tx_to_a) = Some sa' \<and> nonce sa' = nonce sa"
proof -
  have run: "apply_transaction demo_py genesis_world_state tx_to_a = Inr state_a"
    by code_simp
  have h: "\<not> (receiver_addr tx_to_a = None \<and>
             map_option (sha256_hexdigest demo_py) (data tx_to_a) = Some (sender_addr tx_to_a))"
    by (simp add: tx_to_a_def)
  from sender_nonce_unchanged[OF run h] show ?thesis .
qed

lemmas engine_defs = init_block_chain_def genesis_block_def block_hash_def block_str_def
  chain_end_state_signature_def add_block_def mine_new_block_def last_block_def find_block_by_def
  enqueue_transaction_def dict_values_def dict_contains_def dict_setitem_def
  PRE_GENESIS_BLOCK_HASH_def ROOT_ACCOUNT_ADDR_def genesis_world_state_def
  signature_def world_state_str_def account_str_def account_type_def str_opt_def
  transaction_hash_def transaction_str_def apply_transaction_def Let_def

lemmas demo_defs = demo_py_def demo_dict_repr_def demo_repr_def demo_exec_def demo_contract_def

lemma str_int_values:
  "str_int 1000 = ''1000''" "str_int 0 = ''0''" "str_int 5000 = ''5000''"
  "str_int 1 = ''1''" "str_int 999 = ''999''"
  by code_simp+

section \<open>The chain engine\<close>

text \<open>
  C4: for a block that is not the genesis block and whose \<open>prev_block_hash\<close> is no key
  of the known blocks, \<^verbatim>\<open>end_state_for_block\<close> raises (the \<^verbatim>\<open>KeyError\<close> of the lookup,
  \<open>MissingAncestor\<close>), while \<^verbatim>\<open>is_block_valid\<close> returns \<^verbatim>\<open>False\<close> and \<^verbatim>\<open>add_block\<close>
  returns with the engine as it was: a failed validation and no exception. Each of
  the three returns within any fuel of at least one.
\<close>

theorem missing_parent_fails_validation:
  assumes "block_hash py b \<noteq> block_hash py (genesis_block py)"
    and "\<not> dict_contains (prev_block_hash b) (blocks bc)"
  shows "end_state_for_block py (Suc n) bc b = Some (Inl MissingAncestor) \<and>
         is_block_valid py (Suc n) bc b = Some (Inr False) \<and>
         add_block py (Suc n) bc b = Some (Inr (), bc)"
  using assms by (simp add: dict_contains_def add_block_def)

theorem missing_parent_fails_validation_witness:
  "end_state_for_block demo_py (Suc 0) (init_block_chain demo_py) orphan_block =
     Some (Inl MissingAncestor) \<and>
   is_block_valid demo_py (Suc 0) (init_block_chain demo_py) orphan_block = Some (Inr False) \<and>
   add_block demo_py (Suc 0) (init_block_chain demo_py) orphan_block =
     Some (Inr (), init_block_chain demo_py)"
proof -
  have 1: "block_hash demo_py orphan_block \<noteq> block_hash demo_py (genesis_block demo_py)"
    by (simp add: engine_defs demo_defs orphan_block_def)
  have 2: "\<not> dict_contains (prev_block_hash orphan_block) (blocks (init_block_chain demo_py))"
    by (simp add: engine_defs demo_defs orphan_block_def)
  from missing_parent_fails_validation[OF 1 2, of 0] show ?thesis .
qed

text \<open>
  C5: \<^verbatim>\<open>add_block\<close> follows \<^verbatim>\<open>is_block_valid\<close>. Where it returns \<^verbatim>\<open>True\<close> the block is
  stored in the known blocks under its own hash, every other key keeps its block and
  the queue is as before. Where it returns \<^verbatim>\<open>False\<close>, and where it raises, the engine
  is exactly as before.
\<close>

theorem add_block_iff_valid:
  "(is_block_valid py n bc b = Some (Inr True) \<longrightarrow>
      (\<exists>bc'. add_block py n bc b = Some (Inr (), bc') \<and>
         map_of (blocks bc') (block_hash py b) = Some b \<and>
         (\<forall>k. k \<noteq> block_hash py b \<longrightarrow> map_of (blocks bc') k = map_of (blocks bc) k) \<and>
         tx_queue bc' = tx_queue bc)) \<and>
   (is_block_valid py n bc b = Some (Inr False) \<longrightarrow> add_block py n bc b = Some (Inr (), bc)) \<and>
   (\<forall>e. is_block_valid py n bc b = Some (Inl e) \<longrightarrow> add_block py n bc b = Some (Inl e, bc))"
  by (simp add: add_block_def dict_setitem_def update_conv')

lemma empty_child_valid:
  "is_block_valid demo_py 3 (init_block_chain demo_py) empty_child = Some (Inr True)"
  by (simp add: eval_nat_numeral engine_defs demo_defs empty_child_def str_int_values)

lemma wrong_child_invalid:
  "is_block_valid demo_py 3 (init_block_chain demo_py) wrong_child = Some (Inr False)"
  by (simp add: eval_nat_numeral engine_defs demo_defs wrong_child_def str_int_values)

lemma greedy_child_raises:
  "is_block_valid demo_py 3 (init_block_chain demo_py) greedy_child = Some (Inl InsufficientBalance)"
  by (simp add: eval_nat_numeral engine_defs demo_defs greedy_child_def tx_too_much_def str_int_values)

theorem add_block_iff_valid_witness:
  "(\<exists>bc'. add_block demo_py 3 (init_block_chain demo_py) empty_child = Some (Inr (), bc') \<and>
      map_of (blocks bc') (block_hash demo_py empty_child) = Some empty_child) \<and>
   add_block demo_py 3 (init_block_chain demo_py) wrong_child =
     Some (Inr (), init_block_chain demo_py) \<and>
   add_block demo_py 3 (init_block_chain demo_py) greedy_child =
     Some (Inl InsufficientBalance, init_block_chain demo_py)"
proof -
  have 1: "\<exists>bc'. add_block demo_py 3 (init_block_chain demo_py) empty_child = Some (Inr (), bc') \<and>
      map_of (blocks bc') (block_hash demo_py empty_child) = Some empty_child"
    using add_block_iff_valid[of demo_py 3 "init_block_chain demo_py" empty_child] empty_child_valid
    by blast
  have 2: "add_block demo_py 3 (init_block_chain demo_py) wrong_child =
     Some (Inr (), init_block_chain demo_py)"
    using add_block_iff_valid[of demo_py 3 "init_block_chain demo_py" wrong_child] wrong_child_invalid
    by blast
  have 3: "add_block demo_py 3 (init_block_chain demo_py) greedy_child =
     Some (Inl InsufficientBalance, init_block_chain demo_py)"
    using add_block_iff_valid[of demo_py 3 "init_block_chain demo_py" greedy_child] greedy_child_raises
    by blast
  from 1 2 3 show ?thesis by blast
qed






section \<open>The argument of apply transaction is left alone\<close>

lemma kept_refl: "kept xs xs"
  by (simp add: kept_def)

lemma kept_length:
  assumes "kept xs ys"
  shows "length xs \<le> length ys"
proof -
  from assms have "length (take (length xs) ys) = length xs"
    by (simp add: kept_def)
  then show ?thesis by simp
qed

lemma kept_nth:
  assumes "kept xs ys" and "i < length xs"
  shows "ys ! i = xs ! i"
proof -
  from assms(2) have "take (length xs) ys ! i = ys ! i" by simp
  with assms(1) show ?thesis by (simp add: kept_def)
qed

lemma kept_append: "kept xs ys \<Longrightarrow> kept xs (ys @ zs)"
  using kept_length[of xs ys] by (simp add: kept_def)

lemma kept_update: "kept xs ys \<Longrightarrow> length xs \<le> i \<Longrightarrow> kept xs (ys[i := v])"
  by (simp add: kept_def)

lemma extends_refl: "extends h h"
  by (auto simp: extends_def kept_refl fresh_account_def fresh_state_def)

lemma extends_alloc_storage:
  assumes "extends h0 h" and "alloc_storage h d = (h1, r)"
  shows "extends h0 h1" and "fresh_storage h0 h1 r"
proof -
  from assms(2) have h1: "h1 = h\<lparr>storage_objs := storage_objs h @ [d]\<rparr>"
    and r: "r = length (storage_objs h)"
    by (simp_all add: alloc_storage_def)
  from assms(1) have k: "kept (storage_objs h0) (storage_objs h)"
    by (simp add: extends_def)
  from kept_length[OF k] r h1 show "fresh_storage h0 h1 r"
    by (simp add: fresh_storage_def)
  from assms(1) k show "extends h0 h1"
    unfolding h1 extends_def fresh_account_def fresh_state_def fresh_storage_def
    by (auto simp: kept_append less_Suc_eq)
qed

lemma extends_alloc_account:
  assumes "extends h0 h" and "fresh_storage h0 h (o_storage a)" and "alloc_account h a = (h1, r)"
  shows "extends h0 h1" and "fresh_account h0 h1 r"
proof -
  from assms(3) have h1: "h1 = h\<lparr>account_objs := account_objs h @ [a]\<rparr>"
    and r: "r = length (account_objs h)"
    by (simp_all add: alloc_account_def)
  from assms(1) have k: "kept (account_objs h0) (account_objs h)"
    by (simp add: extends_def)
  from kept_length[OF k] r h1 show "fresh_account h0 h1 r"
    by (simp add: fresh_account_def)
  from assms(1) assms(2) k show "extends h0 h1"
    unfolding h1 extends_def fresh_account_def fresh_state_def fresh_storage_def
    by (auto simp: kept_append nth_append less_Suc_eq)
qed

lemma extends_alloc_state:
  assumes "extends h0 h" and "\<forall>k r. (k, r) \<in> set es \<longrightarrow> fresh_account h0 h r"
    and "alloc_state h es = (h1, s)"
  shows "extends h0 h1" and "fresh_state h0 h1 s"
proof -
  from assms(3) have h1: "h1 = h\<lparr>state_objs := state_objs h @ [es]\<rparr>"
    and s: "s = length (state_objs h)"
    by (simp_all add: alloc_state_def)
  from assms(1) have k: "kept (state_objs h0) (state_objs h)"
    by (simp add: extends_def)
  from kept_length[OF k] s h1 show "fresh_state h0 h1 s"
    by (simp add: fresh_state_def)
  from assms(1) assms(2) k show "extends h0 h1"
    unfolding h1 extends_def fresh_account_def fresh_state_def fresh_storage_def
    by (auto simp: kept_append nth_append less_Suc_eq)
qed

lemma grows_refl: "grows h h"
  by (simp add: grows_def)

lemma grows_trans: "grows h h1 \<Longrightarrow> grows h1 h2 \<Longrightarrow> grows h h2"
  by (simp add: grows_def)

lemma fresh_account_grows: "fresh_account h0 h r \<Longrightarrow> grows h h1 \<Longrightarrow> fresh_account h0 h1 r"
  by (simp add: fresh_account_def grows_def)

lemma fresh_storage_grows: "fresh_storage h0 h r \<Longrightarrow> grows h h1 \<Longrightarrow> fresh_storage h0 h1 r"
  by (simp add: fresh_storage_def grows_def)

lemma fresh_state_grows: "fresh_state h0 h r \<Longrightarrow> grows h h1 \<Longrightarrow> fresh_state h0 h1 r"
  by (simp add: fresh_state_def grows_def)

lemma fresh_memo_grows: "fresh_memo h0 h m \<Longrightarrow> grows h h1 \<Longrightarrow> fresh_memo h0 h1 m"
  unfolding fresh_memo_def using fresh_account_grows fresh_storage_grows by blast

lemma grows_alloc_storage: "alloc_storage h d = (h1, r) \<Longrightarrow> grows h h1"
  by (auto simp: alloc_storage_def grows_def)

lemma grows_alloc_account: "alloc_account h a = (h1, r) \<Longrightarrow> grows h h1"
  by (auto simp: alloc_account_def grows_def)

lemma grows_alloc_state: "alloc_state h es = (h1, r) \<Longrightarrow> grows h h1"
  by (auto simp: alloc_state_def grows_def)

lemma grows_set_entry: "grows h (set_entry h s k r)"
  by (simp add: set_entry_def grows_def)

lemma grows_add_balance: "grows h (add_balance h r n)"
  by (simp add: add_balance_def grows_def)

lemma grows_set_storage: "grows h (set_storage h r d)"
  by (simp add: set_storage_def grows_def)

lemma set_dict_setitem: "(k', v') \<in> set (dict_setitem k v d) \<Longrightarrow> (k', v') = (k, v) \<or> (k', v') \<in> set d"
  by (induction d) (auto simp: dict_setitem_def split: if_splits)

lemma extends_set_entry:
  assumes "extends h0 h" and "fresh_state h0 h s" and "fresh_account h0 h r"
  shows "extends h0 (set_entry h s k r)"
proof -
  let ?h = "set_entry h s k r"
  have acc: "account_objs ?h = account_objs h" and sto: "storage_objs ?h = storage_objs h"
    and st: "state_objs ?h = (state_objs h)[s := dict_setitem k r (state_objs h ! s)]"
    by (simp_all add: set_entry_def)
  from assms(1) have ks: "kept (state_objs h0) (state_objs ?h)"
    using assms(2) by (simp add: st extends_def fresh_state_def kept_update)
  have closed: "fresh_account h0 ?h r'"
    if "fresh_state h0 ?h s'" and "(k', r') \<in> set (state_objs ?h ! s')" for s' k' r'
  proof (cases "s' = s")
    case True
    with that(2) assms(2) have "(k', r') \<in> set (dict_setitem k r (state_objs h ! s))"
      by (simp add: st fresh_state_def)
    then have "(k', r') = (k, r) \<or> (k', r') \<in> set (state_objs h ! s)"
      by (rule set_dict_setitem)
    with assms show ?thesis
      by (auto simp: extends_def fresh_account_def acc)
  next
    case False
    with that have "fresh_state h0 h s'" "(k', r') \<in> set (state_objs h ! s')"
      by (simp_all add: st fresh_state_def)
    with assms(1) show ?thesis
      by (auto simp: extends_def fresh_account_def acc)
  qed
  from assms(1) ks closed show ?thesis
    unfolding extends_def by (simp add: acc sto fresh_account_def fresh_storage_def) blast
qed

lemma extends_add_balance:
  assumes "extends h0 h" and "fresh_account h0 h r"
  shows "extends h0 (add_balance h r n)"
proof -
  let ?h = "add_balance h r n"
  have sto: "storage_objs ?h = storage_objs h" and st: "state_objs ?h = state_objs h"
    and len: "length (account_objs ?h) = length (account_objs h)"
    by (simp_all add: add_balance_def)
  have os: "o_storage (account_objs ?h ! r') = o_storage (account_objs h ! r')"
    if "r' < length (account_objs h)" for r'
    using that by (cases "r' = r") (simp_all add: add_balance_def)
  from assms have ka: "kept (account_objs h0) (account_objs ?h)"
    by (simp add: add_balance_def extends_def fresh_account_def kept_update)
  from assms(1) ka show ?thesis
    unfolding extends_def fresh_account_def fresh_storage_def fresh_state_def
    by (simp add: sto st len os)
qed

lemma extends_set_storage:
  assumes "extends h0 h" and "fresh_storage h0 h r"
  shows "extends h0 (set_storage h r d)"
  using assms
  by (simp add: set_storage_def extends_def fresh_account_def fresh_storage_def fresh_state_def
      kept_update)

lemma extends_new_account:
  assumes "extends h0 h" and "new_account h a c t = (h1, r)"
  shows "extends h0 h1" and "fresh_account h0 h1 r" and "grows h h1"
proof -
  obtain h' sr where a1: "alloc_storage h [] = (h', sr)" by (cases "alloc_storage h []")
  with assms(2) have a2: "alloc_account h'
           \<lparr>o_address = a, o_nonce = 0, o_balance = 0, o_code = c, o_storage = sr,
            o_creation_tx_hash = t\<rparr> = (h1, r)"
    by (simp add: new_account_def)
  from extends_alloc_storage[OF assms(1) a1] have e: "extends h0 h'" and f: "fresh_storage h0 h' sr"
    by simp_all
  from f have f': "fresh_storage h0 h' (o_storage \<lparr>o_address = a, o_nonce = 0, o_balance = 0,
      o_code = c, o_storage = sr, o_creation_tx_hash = t\<rparr>)" by simp
  from extends_alloc_account[OF e f' a2] show "extends h0 h1" and "fresh_account h0 h1 r"
    by simp_all
  from grows_alloc_storage[OF a1] grows_alloc_account[OF a2] show "grows h h1"
    by (rule grows_trans)
qed

lemma copy_storage_extends:
  assumes "extends h0 h" and "fresh_memo h0 h m" and "copy_storage h m r = (h1, m1, r')"
  shows "extends h0 h1" and "fresh_memo h0 h1 m1" and "fresh_storage h0 h1 r'" and "grows h h1"
proof -
  have "extends h0 h1 \<and> fresh_memo h0 h1 m1 \<and> fresh_storage h0 h1 r' \<and> grows h h1"
  proof (cases "map_of (snd m) r")
    case (Some x)
    with assms(3) have eq: "h1 = h" "m1 = m" "r' = x" by (auto simp: copy_storage_def)
    from Some have "(r, x) \<in> set (snd m)" by (rule map_of_SomeD)
    with assms(2) have "fresh_storage h0 h x" by (simp add: fresh_memo_def)
    with assms eq show ?thesis by (simp add: grows_refl)
  next
    case None
    obtain h' sr where a: "alloc_storage h (storage_objs h ! r) = (h', sr)"
      by (cases "alloc_storage h (storage_objs h ! r)")
    with None assms(3) have eq: "h1 = h'" "m1 = (fst m, (r, sr) # snd m)" "r' = sr"
      by (auto simp: copy_storage_def)
    from extends_alloc_storage[OF assms(1) a] have e: "extends h0 h'" and f: "fresh_storage h0 h' sr"
      by simp_all
    from grows_alloc_storage[OF a] have g: "grows h h'" .
    from fresh_memo_grows[OF assms(2) g] f have "fresh_memo h0 h' (fst m, (r, sr) # snd m)"
      by (auto simp: fresh_memo_def)
    with e f g eq show ?thesis by simp
  qed
  then show "extends h0 h1" and "fresh_memo h0 h1 m1" and "fresh_storage h0 h1 r'" and "grows h h1"
    by simp_all
qed

lemma copy_account_extends:
  assumes "extends h0 h" and "fresh_memo h0 h m" and "copy_account h m r = (h1, m1, r')"
  shows "extends h0 h1" and "fresh_memo h0 h1 m1" and "fresh_account h0 h1 r'" and "grows h h1"
proof -
  have "extends h0 h1 \<and> fresh_memo h0 h1 m1 \<and> fresh_account h0 h1 r' \<and> grows h h1"
  proof (cases "map_of (fst m) r")
    case (Some x)
    with assms(3) have eq: "h1 = h" "m1 = m" "r' = x" by (auto simp: copy_account_def)
    from Some have "(r, x) \<in> set (fst m)" by (rule map_of_SomeD)
    with assms(2) have "fresh_account h0 h x" by (simp add: fresh_memo_def)
    with assms eq show ?thesis by (simp add: grows_refl)
  next
    case None
    let ?a = "account_objs h ! r"
    obtain h' m' sr where c: "copy_storage h m (o_storage ?a) = (h', m', sr)"
      by (cases "copy_storage h m (o_storage ?a)")
    obtain h'' ar where a: "alloc_account h' (?a\<lparr>o_storage := sr\<rparr>) = (h'', ar)"
      by (cases "alloc_account h' (?a\<lparr>o_storage := sr\<rparr>)")
    from None assms(3) c a have eq: "h1 = h''" "m1 = ((r, ar) # fst m', snd m')" "r' = ar"
      by (auto simp: copy_account_def Let_def)
    from copy_storage_extends[OF assms(1) assms(2) c]
    have e: "extends h0 h'" and fm: "fresh_memo h0 h' m'" and fs: "fresh_storage h0 h' sr"
      and g1: "grows h h'" by simp_all
    from fs have fs': "fresh_storage h0 h' (o_storage (?a\<lparr>o_storage := sr\<rparr>))" by simp
    from extends_alloc_account[OF e fs' a] have e2: "extends h0 h''" and fa: "fresh_account h0 h'' ar"
      by simp_all
    from grows_alloc_account[OF a] have g2: "grows h' h''" .
    from fresh_memo_grows[OF fm g2] fa have "fresh_memo h0 h'' ((r, ar) # fst m', snd m')"
      by (auto simp: fresh_memo_def)
    with e2 fa grows_trans[OF g1 g2] eq show ?thesis by simp
  qed
  then show "extends h0 h1" and "fresh_memo h0 h1 m1" and "fresh_account h0 h1 r'" and "grows h h1"
    by simp_all
qed

lemma copy_entries_extends:
  assumes "extends h0 h" and "fresh_memo h0 h m" and "copy_entries h m es = (h1, m1, es')"
  shows "extends h0 h1 \<and> fresh_memo h0 h1 m1 \<and> grows h h1 \<and>
         (\<forall>k r. (k, r) \<in> set es' \<longrightarrow> fresh_account h0 h1 r) \<and> map fst es' = map fst es"
  using assms
proof (induction es arbitrary: h m h1 m1 es')
  case Nil
  then show ?case by (simp add: grows_refl)
next
  case (Cons e es)
  obtain ha ma ra where c: "copy_account h m (snd e) = (ha, ma, ra)"
    by (cases "copy_account h m (snd e)")
  obtain hb mb esb where r: "copy_entries ha ma es = (hb, mb, esb)"
    by (cases "copy_entries ha ma es")
  from Cons.prems(3) c r have eq: "h1 = hb" "m1 = mb" "es' = (fst e, ra) # esb"
    by auto
  from copy_account_extends[OF Cons.prems(1) Cons.prems(2) c]
  have e1: "extends h0 ha" and f1: "fresh_memo h0 ha ma" and fa: "fresh_account h0 ha ra"
    and g1: "grows h ha" by simp_all
  from Cons.IH[OF e1 f1 r]
  have e2: "extends h0 hb" and f2: "fresh_memo h0 hb mb" and g2: "grows ha hb"
    and all: "\<forall>k r. (k, r) \<in> set esb \<longrightarrow> fresh_account h0 hb r"
    and keys: "map fst esb = map fst es"
    by simp_all
  from fresh_account_grows[OF fa g2] all have "\<forall>k r. (k, r) \<in> set ((fst e, ra) # esb) \<longrightarrow> fresh_account h0 hb r"
    by auto
  with e2 f2 grows_trans[OF g1 g2] keys eq show ?case by simp
qed

lemma deepcopy_extends:
  assumes "deepcopy h s = (h1, s')"
  shows "extends h h1" and "fresh_state h h1 s'"
proof -
  obtain ha ma es where c: "copy_entries h ([], []) (state_objs h ! s) = (ha, ma, es)"
    by (cases "copy_entries h ([], []) (state_objs h ! s)")
  with assms have a: "alloc_state ha es = (h1, s')" by (auto simp: deepcopy_def)
  have fm: "fresh_memo h h ([], [])" by (simp add: fresh_memo_def)
  from copy_entries_extends[OF extends_refl fm c]
  have e: "extends h ha" and all: "\<forall>k r. (k, r) \<in> set es \<longrightarrow> fresh_account h ha r"
    by simp_all
  from extends_alloc_state[OF e all a] show "extends h h1" and "fresh_state h h1 s'"
    by simp_all
qed

lemma entry_fresh:
  assumes "extends h0 h" and "fresh_state h0 h s" and "map_of (state_objs h ! s) k = Some r"
  shows "fresh_account h0 h r"
proof -
  from assms(3) have "(k, r) \<in> set (state_objs h ! s)" by (rule map_of_SomeD)
  with assms(1) assms(2) show ?thesis unfolding extends_def by blast
qed

lemma storage_fresh:
  assumes "extends h0 h" and "fresh_account h0 h r"
  shows "fresh_storage h0 h (o_storage (account_objs h ! r))"
  using assms unfolding extends_def by blast

lemma apply_transaction_h_extends:
  assumes run: "apply_transaction_h py h0 s0 tx = (res, h')"
  shows "extends h0 h'"
proof -
  obtain h s where dc: "deepcopy h0 s0 = (h, s)" by (cases "deepcopy h0 s0")
  from deepcopy_extends[OF dc] have e: "extends h0 h" and fs: "fresh_state h0 h s" by simp_all
  show ?thesis
  proof (cases "map_of (state_objs h ! s) (sender_addr tx)")
    case None
    with run dc have "h' = h" by (auto simp: apply_transaction_h_def)
    with e show ?thesis by simp
  next
    case sender: (Some sa)
    note fa = entry_fresh[OF e fs sender]
    show ?thesis
    proof (cases "tx_nonce tx \<noteq> o_nonce (account_objs h ! sa) \<or>
                  amount tx > o_balance (account_objs h ! sa)")
      case True
      with run dc sender have "h' = h"
        by (auto simp: apply_transaction_h_def split: if_splits)
      with e show ?thesis by simp
    next
      case ok: False
      show ?thesis
      proof (cases "receiver_addr tx")
        case creation: None
        show ?thesis
        proof (cases "data tx")
          case None
          with run dc sender ok creation have "h' = h" by (auto simp: apply_transaction_h_def)
          with e show ?thesis by simp
        next
          case (Some d)
          obtain h1 nc where na: "new_account h (sha256_hexdigest py d) (Some d)
              (Some (transaction_hash py tx)) = (h1, nc)"
            by (cases "new_account h (sha256_hexdigest py d) (Some d) (Some (transaction_hash py tx))")
          with run dc sender ok creation Some
          have h': "h' = set_entry h1 s (sha256_hexdigest py d) nc"
            by (auto simp: apply_transaction_h_def)
          from extends_new_account[OF e na]
          have e1: "extends h0 h1" and f1: "fresh_account h0 h1 nc" and g1: "grows h h1"
            by simp_all
          from extends_set_entry[OF e1 fresh_state_grows[OF fs g1] f1] h' show ?thesis by simp
        qed
      next
        case transfer: (Some r)
        define h1 where "h1 =
           (if \<not> dict_contains r (state_objs h ! s)
            then (let (h', a) = new_account h r None (Some (transaction_hash py tx))
                  in set_entry h' s r a)
            else h)"
        have e1: "extends h0 h1 \<and> grows h h1"
        proof (cases "dict_contains r (state_objs h ! s)")
          case True
          with e show ?thesis by (simp add: h1_def grows_refl)
        next
          case False
          obtain hn a where na: "new_account h r None (Some (transaction_hash py tx)) = (hn, a)"
            by (cases "new_account h r None (Some (transaction_hash py tx))")
          with False have eq: "h1 = set_entry hn s r a" by (simp add: h1_def)
          from extends_new_account[OF e na]
          have en: "extends h0 hn" and fn: "fresh_account h0 hn a" and gn: "grows h hn"
            by simp_all
          from extends_set_entry[OF en fresh_state_grows[OF fs gn] fn]
            grows_trans[OF gn grows_set_entry] eq
          show ?thesis by simp
        qed
        then have ext1: "extends h0 h1" and g1: "grows h h1" by simp_all
        define h2 where "h2 = add_balance h1 sa (- amount tx)"
        from extends_add_balance[OF ext1 fresh_account_grows[OF fa g1]]
        have ext2: "extends h0 h2" by (simp add: h2_def)
        have g2: "grows h h2"
          using grows_trans[OF g1 grows_add_balance] by (simp add: h2_def)
        note fs2 = fresh_state_grows[OF fs g2]
        have run2: "(case map_of (state_objs h2 ! s) r of
              None \<Rightarrow> (Inl UnknownReceiver, h2)
            | Some receiver_account \<Rightarrow>
                (let h3 = add_balance h2 receiver_account (amount tx);
                     ra = account_objs h3 ! receiver_account
                 in case o_code ra of
                      None \<Rightarrow> (Inr s, h3)
                    | Some c \<Rightarrow>
                        (case exec_code py c (storage_objs h3 ! o_storage ra) of
                           None \<Rightarrow> (Inl ContractExecutionError, h3)
                         | Some st \<Rightarrow> (Inr s, set_storage h3 (o_storage ra) st)))) = (res, h')"
          using run dc sender ok transfer
          unfolding apply_transaction_h_def h1_def h2_def Let_def by simp
        show ?thesis
        proof (cases "map_of (state_objs h2 ! s) r")
          case None
          with run2 have "h' = h2" by simp
          with ext2 show ?thesis by simp
        next
          case receiver: (Some rr)
          note fr = entry_fresh[OF ext2 fs2 receiver]
          define h3 where "h3 = add_balance h2 rr (amount tx)"
          from extends_add_balance[OF ext2 fr] have ext3: "extends h0 h3" by (simp add: h3_def)
          have fr3: "fresh_account h0 h3 rr"
            using fresh_account_grows[OF fr grows_add_balance] by (simp add: h3_def)
          note fst3 = storage_fresh[OF ext3 fr3]
          from extends_set_storage[OF ext3 fst3]
          have ext4: "\<And>st. extends h0 (set_storage h3 (o_storage (account_objs h3 ! rr)) st)" .
          from run2 receiver
          have "h' = h3 \<or> (\<exists>st. h' = set_storage h3 (o_storage (account_objs h3 ! rr)) st)"
            by (auto simp: h3_def Let_def split: option.splits)
          with ext3 ext4 show ?thesis by blast
        qed
      qed
    qed
  qed
qed

lemma account_at_kept:
  assumes "extends h h'" and "r < length (account_objs h)"
    and "o_storage (account_objs h ! r) < length (storage_objs h)"
  shows "account_at h' r = account_at h r"
proof -
  from assms(1) have ka: "kept (account_objs h) (account_objs h')"
    and ks: "kept (storage_objs h) (storage_objs h')"
    by (simp_all add: extends_def)
  from kept_nth[OF ka assms(2)] have a: "account_objs h' ! r = account_objs h ! r" .
  from kept_nth[OF ks assms(3)]
  have "storage_objs h' ! o_storage (account_objs h ! r) = storage_objs h ! o_storage (account_objs h ! r)" .
  with a show ?thesis by (simp add: account_at_def)
qed

lemma state_at_kept:
  assumes "extends h h'" and "wf_state h s"
  shows "state_at h' s = state_at h s"
proof -
  from assms(1) have "kept (state_objs h) (state_objs h')" by (simp add: extends_def)
  moreover from assms(2) have "s < length (state_objs h)" by (simp add: wf_state_def)
  ultimately have st: "state_objs h' ! s = state_objs h ! s" by (rule kept_nth)
  have "account_at h' (snd e) = account_at h (snd e)" if "e \<in> set (state_objs h ! s)" for e
  proof -
    from assms(2) that have "snd e < length (account_objs h)"
      "o_storage (account_objs h ! snd e) < length (storage_objs h)"
      by (simp_all add: wf_state_def list_all_iff)
    with assms(1) show ?thesis by (rule account_at_kept)
  qed
  then have "map (\<lambda>e. (fst e, account_at h' (snd e))) (state_objs h ! s) =
             map (\<lambda>e. (fst e, account_at h (snd e))) (state_objs h ! s)"
    by simp
  with st show ?thesis by (simp add: state_at_def)
qed

text \<open>
  C2: \<^verbatim>\<open>apply_transaction\<close> leaves every object that existed before the call as it
  was, whether it returns or raises: the store after the call begins with the store
  before it. So the state passed in (with no dangling reference, as every Python
  object) has the same accounts, with the same fields and storage, and the same
  signature, after the call as before.
\<close>

theorem apply_transaction_keeps_input:
  assumes "wf_state h s" and "apply_transaction_h py h s tx = (res, h')"
  shows "kept (account_objs h) (account_objs h') \<and>
         kept (storage_objs h) (storage_objs h') \<and>
         kept (state_objs h) (state_objs h') \<and>
         state_at h' s = state_at h s \<and>
         signature py (state_at h' s) = signature py (state_at h s)"
proof -
  from assms(2) have e: "extends h h'" by (rule apply_transaction_h_extends)
  from state_at_kept[OF e assms(1)] e show ?thesis
    by (simp add: extends_def)
qed

lemmas store_defs = apply_transaction_h_def deepcopy_def copy_account_def copy_storage_def
  alloc_account_def alloc_storage_def alloc_state_def new_account_def set_entry_def
  add_balance_def set_storage_def state_at_def account_at_def heap_genesis_def
  dict_contains_def dict_setitem_def Let_def

lemma store_transfer_runs:
  "fst (apply_transaction_h demo_py heap_genesis 0 tx_to_a) = Inr 1 \<and>
   state_at (snd (apply_transaction_h demo_py heap_genesis 0 tx_to_a)) 1 = state_a"
  by (simp add: store_defs tx_to_a_def state_a_def acct_root_def acct_a_def
      transaction_hash_def transaction_str_def str_opt_def demo_py_def ROOT_ACCOUNT_ADDR_def
      str_int_values)

lemma store_transfer_raises:
  "fst (apply_transaction_h demo_py heap_genesis 0 tx_too_much) = Inl InsufficientBalance"
  by (simp add: store_defs tx_too_much_def)

theorem apply_transaction_keeps_input_witness:
  "state_at heap_genesis 0 = genesis_world_state \<and>
   fst (apply_transaction_h demo_py heap_genesis 0 tx_to_a) = Inr 1 \<and>
   state_at (snd (apply_transaction_h demo_py heap_genesis 0 tx_to_a)) 1 = state_a \<and>
   state_at (snd (apply_transaction_h demo_py heap_genesis 0 tx_to_a)) 0 = genesis_world_state \<and>
   fst (apply_transaction_h demo_py heap_genesis 0 tx_too_much) = Inl InsufficientBalance \<and>
   state_at (snd (apply_transaction_h demo_py heap_genesis 0 tx_too_much)) 0 = genesis_world_state"
proof -
  have wf: "wf_state heap_genesis 0"
    by (simp add: wf_state_def heap_genesis_def)
  have g: "state_at heap_genesis 0 = genesis_world_state"
    by (simp add: state_at_def account_at_def heap_genesis_def genesis_world_state_def)
  have 1: "state_at (snd (apply_transaction_h demo_py heap_genesis 0 tx_to_a)) 0 =
           state_at heap_genesis 0"
    using apply_transaction_keeps_input[OF wf prod.collapse[symmetric]] by blast
  have 2: "state_at (snd (apply_transaction_h demo_py heap_genesis 0 tx_too_much)) 0 =
           state_at heap_genesis 0"
    using apply_transaction_keeps_input[OF wf prod.collapse[symmetric]] by blast
  from g 1 2 store_transfer_runs store_transfer_raises show ?thesis by simp
qed

end
